theory Spec2Isabelle
  imports Complex_Main
begin

section \<open>The source classifier: \<open>processSources\<close> of the incidents middleware\<close>

text \<open>
  \<open>processSources(sources)\<close> walks an array of citation URLs and, for each of them,
  cuts a host token out of the URL with \<open>String.prototype.split\<close>, looks the token up in a
  \<open>switch\<close> and pushes \<open>{src_url, src_type}\<close> onto the array \<open>incident_src\<close>.
  JavaScript strings are modelled as \<open>string\<close>; \<open>undefined\<close> is \<open>None\<close>.
\<close>

subsection \<open>\<open>String.prototype.split\<close> with a string separator\<close>

text \<open>\<open>starts_with sep s\<close>: the separator matches \<open>s\<close> at its first position.\<close>

fun starts_with :: "string \<Rightarrow> string \<Rightarrow> bool" where
  "starts_with [] s = True"
| "starts_with (p # ps) [] = False"
| "starts_with (p # ps) (c # cs) = (p = c \<and> starts_with ps cs)"

text \<open>
  The scan of \<open>split\<close> for a non-empty separator: \<open>piece\<close> is the text read since the
  last match. At a match the piece is emitted and the scan goes on behind the separator;
  at the end of the string the last piece is emitted, so the result is never empty.
\<close>

function split_scan :: "string \<Rightarrow> string \<Rightarrow> string \<Rightarrow> string list" where
  "split_scan sep piece [] = [piece]"
| "split_scan sep piece (c # cs) =
     (if sep \<noteq> [] \<and> starts_with sep (c # cs)
      then piece # split_scan sep [] (drop (length sep) (c # cs))
      else split_scan sep (piece @ [c]) cs)"
  by pat_completeness auto
termination
  by (relation "measure (\<lambda>(sep, piece, s). length s)") auto

text \<open>\<open>s.split(sep)\<close>; with the empty separator JavaScript returns the single characters.\<close>

definition split_js :: "string \<Rightarrow> string \<Rightarrow> string list" where
  "split_js sep s = (if sep = [] then map (\<lambda>c. [c]) s else split_scan sep [] s)"

text \<open>\<open>a[i]\<close> on an array: \<open>undefined\<close> outside the array.\<close>

fun index_js :: "'a list \<Rightarrow> nat \<Rightarrow> 'a option" where
  "index_js [] i = None"
| "index_js (x # xs) 0 = Some x"
| "index_js (x # xs) (Suc i) = index_js xs i"

subsection \<open>The host token (lines 43 to 62)\<close>

datatype js_error = TypeError | ReferenceError

text \<open>
  \<open>url\<close> starts as the empty string. A string is truthy when it is not empty, so an empty
  second piece of \<open>source.split('https://www.')\<close> takes the \<open>else\<close> branch, like a missing
  one. Reading \<open>.length\<close> of \<open>undefined\<close> would raise a TypeError, which is a branch of the
  model; \<open>url\<close> itself may become \<open>undefined\<close>.
\<close>

definition host_token :: "string \<Rightarrow> js_error + string option" where
  "host_token source =
     (case index_js (split_js ''https://www.'' source) 1 of
        Some (c # comps) \<Rightarrow> Inr (index_js (split_js ''.com'' (c # comps)) 0)
      | _ \<Rightarrow>
         (case index_js (split_js ''https://'' source) 1 of
            None \<Rightarrow> Inr (Some [])
          | Some components \<Rightarrow>
             (case index_js (split_js ''.com'' components) 0 of
                None \<Rightarrow> Inl TypeError
              | Some components2 \<Rightarrow>
                 if length components2 > 11
                 then (case index_js (split_js ''.org'' components2) 0 of
                         None \<Rightarrow> Inl TypeError
                       | Some comps3 \<Rightarrow>
                          if length comps3 > 10
                          then Inr (index_js (split_js ''.'' comps3) 0)
                          else Inr (Some comps3))
                 else Inr (Some components2))))"

subsection \<open>The lookup table (lines 63 to 100)\<close>

definition video_hosts :: "string list" where
  "video_hosts = [''youtube'', ''whyy'', ''youtu'', ''clips'', ''tuckbot'', ''peertube'',
                  ''drive'', ''m'', ''getway'']"

definition post_hosts :: "string list" where
  "post_hosts = [''instagram'', ''twitter'', ''reddit'', ''papost'', ''mobile'', ''nyc'', ''v'']"

definition court_document_hosts :: "string list" where
  "court_document_hosts = [''nlg-la'', ''ewscripps'']"

definition image_hosts :: "string list" where
  "image_hosts = [''i'', ''ibb'', ''photos'']"

definition police_report_hosts :: "string list" where
  "police_report_hosts = [''doverpolice'', ''dsp'']"

text \<open>The \<open>switch\<close> compares with \<open>===\<close>; \<open>undefined\<close> reaches \<open>default\<close>.\<close>

fun switch_url :: "string option \<Rightarrow> string" where
  "switch_url None = ''article''"
| "switch_url (Some url) =
     (if url \<in> set video_hosts then ''video''
      else if url \<in> set post_hosts then ''post''
      else if url \<in> set court_document_hosts then ''court_document''
      else if url \<in> set image_hosts then ''image''
      else if url \<in> set police_report_hosts then ''police_report''
      else ''article'')"

text \<open>The closed set of source types and the keys of the table.\<close>

definition src_types :: "string list" where
  "src_types = [''video'', ''post'', ''court_document'', ''image'', ''police_report'',
                ''article'']"

definition table_hosts :: "string list" where
  "table_hosts = video_hosts @ post_hosts @ court_document_hosts @ image_hosts
                 @ police_report_hosts"

subsection \<open>One citation, and the whole array\<close>

record citation =
  src_url :: string
  src_type :: string

text \<open>The body of the \<open>forEach\<close> callback up to the record \<open>s\<close> that it pushes.\<close>

definition classify :: "string \<Rightarrow> js_error + citation" where
  "classify source =
     (case host_token source of
        Inl e \<Rightarrow> Inl e
      | Inr url \<Rightarrow> Inr \<lparr>src_url = source, src_type = switch_url url\<rparr>)"

text \<open>
  \<open>incident_src\<close> is assigned without a declaration: in a CommonJS module, which is not
  in strict mode, this creates or overwrites a property of the global object. \<open>None\<close> means
  that the global does not exist.
\<close>

record globals =
  incident_src :: "citation list option"

text \<open>\<open>sources.forEach\<close>: each callback pushes onto the array the global refers to.\<close>

fun forEach_source :: "string list \<Rightarrow> globals \<Rightarrow> js_error + globals" where
  "forEach_source [] g = Inr g"
| "forEach_source (source # rest) g =
     (case classify source of
        Inl e \<Rightarrow> Inl e
      | Inr s \<Rightarrow>
         (case incident_src g of
            None \<Rightarrow> Inl ReferenceError
          | Some arr \<Rightarrow> forEach_source rest (g\<lparr>incident_src := Some (arr @ [s])\<rparr>)))"

definition processSources :: "string list \<Rightarrow> globals \<Rightarrow> js_error + citation list \<times> globals" where
  "processSources sources g =
     (case forEach_source sources (g\<lparr>incident_src := Some []\<rparr>) of
        Inl e \<Rightarrow> Inl e
      | Inr g' \<Rightarrow>
         (case incident_src g' of
            None \<Rightarrow> Inl ReferenceError
          | Some arr \<Rightarrow> Inr (arr, g')))"

section \<open>The aggregator: the handler of \<open>GET /showallincidents\<close>\<close>

text \<open>
  The handler fetches four collections of rows and joins them in memory (lines 73 to
  103). The rows are objects; the handler writes the properties \<open>categories\<close> and \<open>src\<close>
  into the incident objects, so these live in a heap and the \<open>incidents\<close> array holds
  their addresses. Tag definitions, tag links and sources are only read: they are values.
\<close>

subsection \<open>Rows\<close>

record tof =
  type_of_force_id :: int
  type_of_force :: string

text \<open>
  An element of \<open>tagsArray\<close>: \<open>{ ...tof, incident_id: connection.incident_id }\<close>. The
  property \<open>incident_id\<close> of a tag, of a tag link and of a source is written
  \<open>tag_incident_id\<close>, \<open>link_incident_id\<close> and \<open>src_incident_id\<close>, and the
  \<open>type_of_force_id\<close> of a tag link \<open>link_type_of_force_id\<close>. The keys are integers, on
  which \<open>===\<close> is equality.
\<close>

record tag = tof +
  tag_incident_id :: int

record link =
  link_type_of_force_id :: int
  link_incident_id :: int

text \<open>A row of the sources table: a citation with its key and its incident.\<close>

record source = citation +
  src_id :: int
  src_incident_id :: int

text \<open>
  A row of the incidents table; the column \<open>id\<close> is \<open>id_slug\<close> here. The join reads
  \<open>incident_id\<close> only and copies the other columns.
\<close>

record incident_row =
  incident_id :: int
  id_slug :: string
  city :: string
  state :: string
  lat :: real
  long :: real
  title :: string
  desc :: string
  date :: string

text \<open>
  The incident object: a property that was never assigned is \<open>None\<close>. Every address of
  the heap holds an object, as every element of a fetched array is one.
\<close>

record incident = incident_row +
  categories :: "string list option"
  src :: "source list option"

type_synonym addr = nat

type_synonym heap = "addr \<Rightarrow> incident"

subsection \<open>Building \<open>tagsArray\<close> (lines 76 to 82)\<close>

fun forEach_typeLinks :: "tof \<Rightarrow> link list \<Rightarrow> tag list \<Rightarrow> tag list" where
  "forEach_typeLinks tof [] tagsArray = tagsArray"
| "forEach_typeLinks tof (connection # rest) tagsArray =
     forEach_typeLinks tof rest
       (if link_type_of_force_id connection = type_of_force_id tof
        then tagsArray @ [\<lparr>type_of_force_id = type_of_force_id tof,
                           type_of_force = type_of_force tof,
                           tag_incident_id = link_incident_id connection\<rparr>]
        else tagsArray)"

fun forEach_tofTypes :: "tof list \<Rightarrow> link list \<Rightarrow> tag list \<Rightarrow> tag list" where
  "forEach_tofTypes [] typeLinks tagsArray = tagsArray"
| "forEach_tofTypes (tof # rest) typeLinks tagsArray =
     forEach_tofTypes rest typeLinks (forEach_typeLinks tof typeLinks tagsArray)"

subsection \<open>Attaching the categories (lines 84 to 91)\<close>

text \<open>
  \<open>incident.categories.push(...)\<close> reads the property again at every push; on an object
  without it the call would raise a TypeError, which the handler's \<open>catch\<close> turns into
  the answer 500.
\<close>

fun forEach_tagsArray :: "addr \<Rightarrow> tag list \<Rightarrow> heap \<Rightarrow> js_error + heap" where
  "forEach_tagsArray r [] h = Inr h"
| "forEach_tagsArray r (tag # rest) h =
     (if tag_incident_id tag = incident_id (h r)
      then (case categories (h r) of
              None \<Rightarrow> Inl TypeError
            | Some arr \<Rightarrow>
               forEach_tagsArray r rest
                 (h(r := (h r)\<lparr>categories := Some (arr @ [type_of_force tag])\<rparr>)))
      else forEach_tagsArray r rest h)"

fun forEach_incidents_categories :: "addr list \<Rightarrow> tag list \<Rightarrow> heap \<Rightarrow> js_error + heap" where
  "forEach_incidents_categories [] tagsArray h = Inr h"
| "forEach_incidents_categories (r # rest) tagsArray h =
     (case forEach_tagsArray r tagsArray (h(r := (h r)\<lparr>categories := Some []\<rparr>)) of
        Inl e \<Rightarrow> Inl e
      | Inr h' \<Rightarrow> forEach_incidents_categories rest tagsArray h')"

subsection \<open>Attaching the sources and collecting the response (lines 94 to 103)\<close>

fun forEach_sources :: "addr \<Rightarrow> source list \<Rightarrow> heap \<Rightarrow> js_error + heap" where
  "forEach_sources r [] h = Inr h"
| "forEach_sources r (source # rest) h =
     (if src_incident_id source = incident_id (h r)
      then (case src (h r) of
              None \<Rightarrow> Inl TypeError
            | Some arr \<Rightarrow> forEach_sources r rest (h(r := (h r)\<lparr>src := Some (arr @ [source])\<rparr>)))
      else forEach_sources r rest h)"

text \<open>\<open>responseArray.push(incident)\<close> pushes the address of the incident object.\<close>

fun forEach_incidents_src ::
  "addr list \<Rightarrow> source list \<Rightarrow> heap \<Rightarrow> addr list \<Rightarrow> js_error + heap \<times> addr list" where
  "forEach_incidents_src [] sources h responseArray = Inr (h, responseArray)"
| "forEach_incidents_src (r # rest) sources h responseArray =
     (case forEach_sources r sources (h(r := (h r)\<lparr>src := Some []\<rparr>)) of
        Inl e \<Rightarrow> Inl e
      | Inr h' \<Rightarrow> forEach_incidents_src rest sources h' (responseArray @ [r]))"

subsection \<open>The join and the answer\<close>

text \<open>
  \<open>aggregate\<close> is the handler's body between the fetches and \<open>res.json\<close>: it returns the
  heap it leaves behind and \<open>responseArray\<close>.
\<close>

definition aggregate ::
  "heap \<Rightarrow> addr list \<Rightarrow> tof list \<Rightarrow> link list \<Rightarrow> source list \<Rightarrow> js_error + heap \<times> addr list" where
  "aggregate h incidents tofTypes typeLinks sources =
     (case forEach_incidents_categories incidents (forEach_tofTypes tofTypes typeLinks []) h of
        Inl e \<Rightarrow> Inl e
      | Inr h' \<Rightarrow> forEach_incidents_src incidents sources h' [])"

datatype response = Json_200 "incident list" | Json_500 string

text \<open>
  The handler on four fetched collections: \<open>res.json\<close> writes the objects of
  \<open>responseArray\<close> as they are then; an exception ends in the \<open>catch\<close> branch. The
  fetches themselves belong to the storage and are not part of the model.
\<close>

definition showallincidents ::
  "heap \<Rightarrow> addr list \<Rightarrow> source list \<Rightarrow> tof list \<Rightarrow> link list \<Rightarrow> response" where
  "showallincidents h incidents sources tofTypes typeLinks =
     (case aggregate h incidents tofTypes typeLinks sources of
        Inl e \<Rightarrow> Json_500 ''Request Error''
      | Inr (h', responseArray) \<Rightarrow> Json_200 (map h' responseArray))"

section \<open>Notions of the specification\<close>

text \<open>
  The specification speaks of "the text between \<open>https://www.\<close> and the first \<open>.com\<close>".
  \<open>text_before sep s\<close> is the text of \<open>s\<close> in front of the first occurrence of \<open>sep\<close>
  (all of \<open>s\<close> when there is none), and \<open>contains sep s\<close> says that \<open>sep\<close> occurs in \<open>s\<close>.
  Both are written from these words, not from \<open>split_scan\<close>.
\<close>

fun text_before :: "string \<Rightarrow> string \<Rightarrow> string" where
  "text_before sep [] = []"
| "text_before sep (c # cs) = (if starts_with sep (c # cs) then [] else c # text_before sep cs)"

fun contains :: "string \<Rightarrow> string \<Rightarrow> bool" where
  "contains sep [] = (sep = [])"
| "contains sep (c # cs) = (starts_with sep (c # cs) \<or> contains sep cs)"

text \<open>
  "The pair (type_of_force_id, incident_id) occurs n times in the tag-links collection":
  \<open>occurrences typeLinks t i\<close> is that n.
\<close>

definition occurrences :: "link list \<Rightarrow> int \<Rightarrow> int \<Rightarrow> nat" where
  "occurrences typeLinks t i =
     length (filter (\<lambda>c. link_type_of_force_id c = t \<and> link_incident_id c = i) typeLinks)"

section \<open>Example rows\<close>

text \<open>
  The first two incidents of \<open>getTestIncidents\<close> in the repository's tests, with the keys
  the storage assigns and shortened descriptions, as the storage returns them: without
  the properties \<open>categories\<close> and \<open>src\<close>.
\<close>

definition incident1 :: incident where
  "incident1 =
     \<lparr>incident_id = 1, id_slug = ''wa-olympia-1'', city = ''Olympia'', state = ''Washington'',
      lat = 47.0417, long = - 122.8959,
      title = ''Police respond to broken windows with excessive force'',
      desc = ''Footage shows a few individuals break off from a protest.'',
      date = ''2020-05-31'', categories = None, src = None\<rparr>"

definition incident2 :: incident where
  "incident2 =
     \<lparr>incident_id = 2, id_slug = ''wa-seattle-1'', city = ''Seattle'', state = ''Washington'',
      lat = 47.6211, long = - 122.3244,
      title = ''Officer pins protester by pushing his knee into his neck'',
      desc = ''Officer pins protester with his knee on his neck.'',
      date = ''2020-05-30'', categories = None, src = None\<rparr>"

text \<open>A heap with \<open>incident1\<close> at address 0 and \<open>incident2\<close> at every other address.\<close>

definition fetched :: heap where
  "fetched = (\<lambda>r. if r = 0 then incident1 else incident2)"

definition tear_gas :: tof where
  "tear_gas = \<lparr>type_of_force_id = 1, type_of_force = ''tear_gas''\<rparr>"

definition baton :: tof where
  "baton = \<lparr>type_of_force_id = 2, type_of_force = ''baton''\<rparr>"

definition tweet :: source where
  "tweet = \<lparr>src_url = ''https://twitter.com/x'', src_type = ''post'', src_id = 1,
            src_incident_id = 1\<rparr>"

section \<open>Properties of the classifier\<close>

subsection \<open>\<open>split\<close> and the text before a separator\<close>

lemma split_scan_first:
  "sep \<noteq> [] \<Longrightarrow> index_js (split_scan sep piece s) 0 = Some (piece @ text_before sep s)"
  by (induction sep piece s rule: split_scan.induct) auto

lemma split_js_first:
  "sep \<noteq> [] \<Longrightarrow> index_js (split_js sep s) 0 = Some (text_before sep s)"
  by (simp add: split_js_def split_scan_first)

lemma starts_with_append: "starts_with sep (sep @ rest)"
  by (induction sep) auto

lemma split_scan_at_match:
  "sep \<noteq> [] \<Longrightarrow> split_scan sep piece (sep @ rest) = piece # split_scan sep [] rest"
  by (cases sep) (simp_all add: starts_with_append)

lemma text_before_prefix: "\<exists>r. s = text_before sep s @ r"
  by (induction s) auto

lemma starts_with_length: "starts_with sep p \<Longrightarrow> length sep \<le> length p"
  by (induction sep p rule: starts_with.induct) auto

lemma contains_length: "contains sep p \<Longrightarrow> length sep \<le> length p"
  by (induction p) (auto dest: starts_with_length)

lemma starts_with_long:
  "length sep \<le> length p \<Longrightarrow> starts_with sep (p @ r) = starts_with sep p"
  by (induction sep p rule: starts_with.induct) auto

lemma text_before_empty_sep: "text_before [] s = []"
  by (cases s) auto

lemma text_before_append:
  "contains sep p \<Longrightarrow> text_before sep (p @ r) = text_before sep p"
proof (induction p)
  case Nil
  then show ?case by (simp add: text_before_empty_sep)
next
  case (Cons c cs)
  have "length sep \<le> length (c # cs)" using Cons.prems by (rule contains_length)
  then have same: "starts_with sep ((c # cs) @ r) = starts_with sep (c # cs)"
    by (rule starts_with_long)
  show ?case
  proof (cases "starts_with sep (c # cs)")
    case True
    with same show ?thesis by simp
  next
    case False
    with Cons.prems have "contains sep cs" by simp
    with Cons.IH same False show ?thesis by simp
  qed
qed

lemma not_contains_text_before: "\<not> contains sep s \<Longrightarrow> text_before sep s = s"
  by (induction s) auto

subsection \<open>The classifier returns\<close>

lemma host_token_returns: "\<exists>url. host_token source = Inr url"
  by (simp add: host_token_def split_js_first split: option.split list.split)

lemma switch_url_closed: "switch_url url \<in> set src_types"
  by (cases url) (simp_all add: src_types_def)

lemma switch_url_default:
  "url \<notin> Some ` set table_hosts \<Longrightarrow> switch_url url = ''article''"
  by (cases url) (auto simp: table_hosts_def)

lemma forEach_source_eq:
  "incident_src g = Some arr \<Longrightarrow>
   \<exists>cs. forEach_source sources g = Inr (g\<lparr>incident_src := Some (arr @ cs)\<rparr>)
        \<and> map Inr cs = map classify sources"
proof (induction sources arbitrary: g arr)
  case Nil
  then show ?case by simp
next
  case (Cons source rest)
  obtain url where "host_token source = Inr url" using host_token_returns by blast
  then obtain s where s: "classify source = Inr s" by (simp add: classify_def)
  let ?g = "g\<lparr>incident_src := Some (arr @ [s])\<rparr>"
  have "incident_src ?g = Some (arr @ [s])" by simp
  from Cons.IH [OF this] obtain cs where
    cs: "forEach_source rest ?g = Inr (?g\<lparr>incident_src := Some ((arr @ [s]) @ cs)\<rparr>)"
      "map Inr cs = map classify rest" by blast
  show ?case
    by (rule exI [of _ "s # cs"]) (simp add: s cs Cons.prems)
qed

lemma processSources_eq:
  "\<exists>cs. processSources sources g = Inr (cs, g\<lparr>incident_src := Some cs\<rparr>)
        \<and> map Inr cs = map classify sources"
proof -
  have "incident_src (g\<lparr>incident_src := Some []\<rparr>) = Some []" by simp
  from forEach_source_eq [OF this, of sources] obtain cs where
    "forEach_source sources (g\<lparr>incident_src := Some []\<rparr>) = Inr (g\<lparr>incident_src := Some cs\<rparr>)"
    "map Inr cs = map classify sources" by auto
  then show ?thesis by (auto simp: processSources_def)
qed

lemma host_token_www:
  assumes "text_before ''https://www.'' rest \<noteq> []"
  shows "host_token (''https://www.'' @ rest) =
         Inr (Some (text_before ''.com'' (text_before ''https://www.'' rest)))"
proof -
  obtain c comps where p: "text_before ''https://www.'' rest = c # comps"
    using assms by (cases "text_before ''https://www.'' rest") auto
  have "split_js ''https://www.'' (''https://www.'' @ rest)
        = [] # split_scan ''https://www.'' [] rest"
    unfolding split_js_def using split_scan_at_match [of "''https://www.''" "[]" rest] by simp
  then have "index_js (split_js ''https://www.'' (''https://www.'' @ rest)) 1 = Some (c # comps)"
    using split_scan_first [of "''https://www.''" "[]" rest] p by simp
  then show ?thesis
    unfolding host_token_def by (simp add: split_js_first p)
qed

subsection \<open>Claims about the classifier\<close>

text \<open>
  Claim C4. The classifier is total: for every string the host token is computed without
  an exception and \<open>classify\<close> returns a record whose \<open>src_url\<close> is the input, unchanged,
  and whose \<open>src_type\<close> is one of video, post, court_document, image, police_report and
  article; it is article whenever the token is no key of the lookup table. The empty
  string gives \<open>{src_url: "", src_type: "article"}\<close>. \<open>processSources\<close> returns, for
  every array of strings, the array of these records.
\<close>

theorem classify_total:
  "(\<exists>url s. host_token source = Inr url \<and> classify source = Inr s \<and> src_url s = source
        \<and> src_type s \<in> set src_types
        \<and> (url \<notin> Some ` set table_hosts \<longrightarrow> src_type s = ''article''))
   \<and> classify [] = Inr \<lparr>src_url = [], src_type = ''article''\<rparr>
   \<and> (\<exists>cs g'. processSources sources g = Inr (cs, g') \<and> map Inr cs = map classify sources)"
proof (intro conjI)
  obtain url where url: "host_token source = Inr url" using host_token_returns by blast
  show "\<exists>url s. host_token source = Inr url \<and> classify source = Inr s \<and> src_url s = source
        \<and> src_type s \<in> set src_types
        \<and> (url \<notin> Some ` set table_hosts \<longrightarrow> src_type s = ''article'')"
    using url switch_url_closed [of url] switch_url_default [of url]
    by (simp add: classify_def)
  show "classify [] = Inr \<lparr>src_url = [], src_type = ''article''\<rparr>"
    by code_simp
  show "\<exists>cs g'. processSources sources g = Inr (cs, g') \<and> map Inr cs = map classify sources"
    using processSources_eq [of sources g] by blast
qed

theorem classify_total_witness:
  "host_token ''https://example.com/x'' = Inr (Some ''example'')
   \<and> Some ''example'' \<notin> Some ` set table_hosts
   \<and> classify ''https://example.com/x''
       = Inr \<lparr>src_url = ''https://example.com/x'', src_type = ''article''\<rparr>"
proof -
  have token: "host_token ''https://example.com/x'' = Inr (Some ''example'')"
    by code_simp
  have no_key: "Some ''example'' \<notin> Some ` set table_hosts"
    by (simp add: table_hosts_def video_hosts_def post_hosts_def court_document_hosts_def
        image_hosts_def police_report_hosts_def)
  from classify_total [of "''https://example.com/x''" "[]" "\<lparr>incident_src = None\<rparr>"]
  obtain url s where
    "host_token ''https://example.com/x'' = Inr url"
    "classify ''https://example.com/x'' = Inr s"
    "src_url s = ''https://example.com/x''"
    "url \<notin> Some ` set table_hosts \<longrightarrow> src_type s = ''article''"
    by blast
  with token no_key show ?thesis by simp
qed

text \<open>
  Claim C5. Classifying \<open>https://nlg-la.org/case123\<close> gives court_document: the URL has
  no \<open>https://www.\<close>, so the branch for \<open>https://\<close> is taken; the token
  \<open>nlg-la.org/case123\<close> (nothing to cut at \<open>.com\<close>) is longer than 11 characters;
  cutting at \<open>.org\<close> leaves \<open>nlg-la\<close>, which is not longer than 10 characters and is a key
  of the court_document entry.
\<close>

theorem classify_nlg_la:
  "index_js (split_js ''https://www.'' ''https://nlg-la.org/case123'') 1 = None
   \<and> index_js (split_js ''https://'' ''https://nlg-la.org/case123'') 1
       = Some ''nlg-la.org/case123''
   \<and> index_js (split_js ''.com'' ''nlg-la.org/case123'') 0 = Some ''nlg-la.org/case123''
   \<and> length ''nlg-la.org/case123'' > 11
   \<and> index_js (split_js ''.org'' ''nlg-la.org/case123'') 0 = Some ''nlg-la''
   \<and> \<not> length ''nlg-la'' > 10
   \<and> host_token ''https://nlg-la.org/case123'' = Inr (Some ''nlg-la'')
   \<and> ''nlg-la'' \<in> set court_document_hosts
   \<and> classify ''https://nlg-la.org/case123''
       = Inr \<lparr>src_url = ''https://nlg-la.org/case123'', src_type = ''court_document''\<rparr>"
  by code_simp

text \<open>
  Claim C9, as stated: for every URL that begins with \<open>https://www.\<close> the host token is
  the text between \<open>https://www.\<close> and the first \<open>.com\<close>. It fails where the second
  piece of \<open>source.split('https://www.')\<close> is not that text. For \<open>https://www.\<close> alone the
  piece is the empty string, which is falsy: the branch for \<open>https://\<close> is taken and the
  token is \<open>www.\<close>, not the empty text. For \<open>https://www.youtubehttps://www.x.com\<close> the
  piece ends at the second \<open>https://www.\<close>: the token is \<open>youtube\<close> and the type is video,
  while the text in front of the first \<open>.com\<close> is \<open>youtubehttps://www.x\<close>.
\<close>

theorem host_token_www_counterexample:
  "host_token (''https://www.'' @ []) = Inr (Some ''www.'')
   \<and> text_before ''.com'' [] = []
   \<and> host_token (''https://www.'' @ ''youtubehttps://www.x.com'') = Inr (Some ''youtube'')
   \<and> text_before ''.com'' ''youtubehttps://www.x.com'' = ''youtubehttps://www.x''
   \<and> classify ''https://www.youtubehttps://www.x.com''
       = Inr \<lparr>src_url = ''https://www.youtubehttps://www.x.com'', src_type = ''video''\<rparr>"
  by code_simp

text \<open>
  Claim C9, amended. For every URL that begins with \<open>https://www.\<close> and goes on with a
  non-empty remainder in which \<open>https://www.\<close> does not occur again, or occurs only behind
  a complete \<open>.com\<close>, the host token is exactly the text between that \<open>https://www.\<close> and
  the first \<open>.com\<close>, whatever its length: the 11-character gate, the cut at \<open>.org\<close> and
  the cut at the first dot belong to the branch for \<open>https://\<close> only. So
  \<open>https://www.nlg-la.org/case123\<close> keeps the token \<open>nlg-la.org/case123\<close> and is an
  article, while the same URL without \<open>www.\<close> is a court_document.
\<close>

theorem host_token_www_prefix:
  assumes "rest \<noteq> []"
    and "\<not> contains ''https://www.'' rest
         \<or> contains ''.com'' (text_before ''https://www.'' rest)"
  shows "host_token (''https://www.'' @ rest) = Inr (Some (text_before ''.com'' rest))
         \<and> host_token ''https://www.nlg-la.org/case123'' = Inr (Some ''nlg-la.org/case123'')
         \<and> classify ''https://www.nlg-la.org/case123''
             = Inr \<lparr>src_url = ''https://www.nlg-la.org/case123'', src_type = ''article''\<rparr>
         \<and> classify ''https://nlg-la.org/case123''
             = Inr \<lparr>src_url = ''https://nlg-la.org/case123'', src_type = ''court_document''\<rparr>"
proof (intro conjI)
  let ?p = "text_before ''https://www.'' rest"
  from assms(2) have "?p \<noteq> [] \<and> text_before ''.com'' ?p = text_before ''.com'' rest"
  proof
    assume "\<not> contains ''https://www.'' rest"
    then have "?p = rest" by (rule not_contains_text_before)
    with assms(1) show ?thesis by simp
  next
    assume c: "contains ''.com'' ?p"
    obtain r where r: "rest = ?p @ r" using text_before_prefix by blast
    have "text_before ''.com'' (?p @ r) = text_before ''.com'' ?p"
      using c by (rule text_before_append)
    moreover have "?p \<noteq> []" using c by auto
    ultimately show ?thesis using r by metis
  qed
  then show "host_token (''https://www.'' @ rest) = Inr (Some (text_before ''.com'' rest))"
    using host_token_www [of rest] by simp
  show "host_token ''https://www.nlg-la.org/case123'' = Inr (Some ''nlg-la.org/case123'')"
    by code_simp
  show "classify ''https://www.nlg-la.org/case123''
          = Inr \<lparr>src_url = ''https://www.nlg-la.org/case123'', src_type = ''article''\<rparr>"
    by code_simp
  show "classify ''https://nlg-la.org/case123''
          = Inr \<lparr>src_url = ''https://nlg-la.org/case123'', src_type = ''court_document''\<rparr>"
    by code_simp
qed

theorem host_token_www_prefix_witness:
  "''youtube.com/watch'' \<noteq> []
   \<and> \<not> contains ''https://www.'' ''youtube.com/watch''
   \<and> text_before ''.com'' ''youtube.com/watch'' = ''youtube''
   \<and> host_token ''https://www.youtube.com/watch'' = Inr (Some ''youtube'')
   \<and> contains ''.com'' (text_before ''https://www.'' ''google.com/url?q=https://www.whyy.org'')
   \<and> text_before ''.com'' ''google.com/url?q=https://www.whyy.org'' = ''google''
   \<and> host_token ''https://www.google.com/url?q=https://www.whyy.org'' = Inr (Some ''google'')"
proof -
  have a: "''youtube.com/watch'' \<noteq> []" by simp
  have b: "\<not> contains ''https://www.'' ''youtube.com/watch''" by code_simp
  have c: "text_before ''.com'' ''youtube.com/watch'' = ''youtube''" by code_simp
  have d: "''google.com/url?q=https://www.whyy.org'' \<noteq> []" by simp
  have e: "contains ''.com'' (text_before ''https://www.'' ''google.com/url?q=https://www.whyy.org'')"
    by code_simp
  have f: "text_before ''.com'' ''google.com/url?q=https://www.whyy.org'' = ''google''"
    by code_simp
  from host_token_www_prefix [OF a disjI1 [OF b]] c
  have g: "host_token ''https://www.youtube.com/watch'' = Inr (Some ''youtube'')" by simp
  from host_token_www_prefix [OF d disjI2 [OF e]] f
  have h: "host_token ''https://www.google.com/url?q=https://www.whyy.org'' = Inr (Some ''google'')"
    by simp
  from a b c g e f h show ?thesis by blast
qed

text \<open>
  Claim C8. The claim asks that an invocation writes no state outside its own call. The
  results of \<open>processSources\<close> depend on the argument only, but the array \<open>incident_src\<close>
  is assigned without a declaration, while every other variable of the function is
  declared with \<open>let\<close>: the call on \<open>["https://twitter.com/x"]\<close> in a process where no
  global \<open>incident_src\<close> exists leaves a global \<open>incident_src\<close> behind that holds the
  returned array.
\<close>

theorem processSources_writes_global:
  "processSources [''https://twitter.com/x''] \<lparr>incident_src = None\<rparr>
     = Inr ([\<lparr>src_url = ''https://twitter.com/x'', src_type = ''post''\<rparr>],
            \<lparr>incident_src = Some [\<lparr>src_url = ''https://twitter.com/x'', src_type = ''post''\<rparr>]\<rparr>)
   \<and> (\<exists>cs. \<forall>g. processSources sources g = Inr (cs, g\<lparr>incident_src := Some cs\<rparr>))"
proof
  show "processSources [''https://twitter.com/x''] \<lparr>incident_src = None\<rparr>
     = Inr ([\<lparr>src_url = ''https://twitter.com/x'', src_type = ''post''\<rparr>],
            \<lparr>incident_src = Some [\<lparr>src_url = ''https://twitter.com/x'', src_type = ''post''\<rparr>]\<rparr>)"
    by code_simp
  obtain cs where cs: "map Inr cs = map classify sources"
    using processSources_eq [of sources undefined] by blast
  have "processSources sources g = Inr (cs, g\<lparr>incident_src := Some cs\<rparr>)" for g
  proof -
    obtain cs' where cs': "processSources sources g = Inr (cs', g\<lparr>incident_src := Some cs'\<rparr>)"
      "map Inr cs' = map classify sources"
      using processSources_eq [of sources g] by blast
    from cs cs'(2) have "map Inr cs' = (map Inr cs :: (js_error + citation) list)" by simp
    then have "cs' = cs" by simp
    with cs'(1) show ?thesis by simp
  qed
  then show "\<exists>cs. \<forall>g. processSources sources g = Inr (cs, g\<lparr>incident_src := Some cs\<rparr>)"
    by blast
qed

section \<open>Properties of the aggregator\<close>

subsection \<open>The loops in closed form\<close>

lemma forEach_typeLinks_eq:
  "forEach_typeLinks d ls acc =
     acc @ map (\<lambda>c. \<lparr>type_of_force_id = type_of_force_id d, type_of_force = type_of_force d,
                     tag_incident_id = link_incident_id c\<rparr>)
             (filter (\<lambda>c. link_type_of_force_id c = type_of_force_id d) ls)"
  by (induction ls arbitrary: acc) auto

lemma forEach_tofTypes_eq:
  "forEach_tofTypes ds ls acc =
     acc @ concat (map (\<lambda>d. map (\<lambda>c. \<lparr>type_of_force_id = type_of_force_id d,
                                       type_of_force = type_of_force d,
                                       tag_incident_id = link_incident_id c\<rparr>)
                         (filter (\<lambda>c. link_type_of_force_id c = type_of_force_id d) ls)) ds)"
  by (induction ds arbitrary: acc) (auto simp: forEach_typeLinks_eq)

lemma labels_of_tagsArray:
  "map type_of_force (filter (\<lambda>t. tag_incident_id t = i) (forEach_tofTypes ds ls [])) =
     concat (map (\<lambda>d. map (\<lambda>c. type_of_force d)
                    (filter (\<lambda>c. link_type_of_force_id c = type_of_force_id d
                                 \<and> link_incident_id c = i) ls)) ds)"
  unfolding forEach_tofTypes_eq
  by (induction ds) (simp_all add: filter_map comp_def conj_commute)

lemma forEach_tagsArray_eq:
  "categories (h r) = Some arr \<Longrightarrow>
   forEach_tagsArray r tags h =
     Inr (h(r := (h r)\<lparr>categories :=
            Some (arr @ map type_of_force
                          (filter (\<lambda>t. tag_incident_id t = incident_id (h r)) tags))\<rparr>))"
proof (induction tags arbitrary: h arr)
  case Nil
  then have "(h r)\<lparr>categories := Some arr\<rparr> = h r" by simp
  then show ?case by simp
next
  case (Cons t tags)
  show ?case
  proof (cases "tag_incident_id t = incident_id (h r)")
    case True
    let ?h = "h(r := (h r)\<lparr>categories := Some (arr @ [type_of_force t])\<rparr>)"
    have "categories (?h r) = Some (arr @ [type_of_force t])" by simp
    then have "forEach_tagsArray r tags ?h = Inr (?h(r := (?h r)\<lparr>categories :=
        Some ((arr @ [type_of_force t])
              @ map type_of_force
                  (filter (\<lambda>t. tag_incident_id t = incident_id (?h r)) tags))\<rparr>))"
      by (rule Cons.IH)
    then show ?thesis using True Cons.prems by simp (rule ext, simp)
  next
    case False
    from Cons.prems have "forEach_tagsArray r tags h = Inr (h(r := (h r)\<lparr>categories :=
        Some (arr @ map type_of_force
                      (filter (\<lambda>t. tag_incident_id t = incident_id (h r)) tags))\<rparr>))"
      by (rule Cons.IH)
    with False show ?thesis by simp (rule ext, simp)
  qed
qed

lemma forEach_sources_eq:
  "src (h r) = Some arr \<Longrightarrow>
   forEach_sources r ss h =
     Inr (h(r := (h r)\<lparr>src :=
            Some (arr @ filter (\<lambda>s. src_incident_id s = incident_id (h r)) ss)\<rparr>))"
proof (induction ss arbitrary: h arr)
  case Nil
  then have "(h r)\<lparr>src := Some arr\<rparr> = h r" by simp
  then show ?case by simp
next
  case (Cons s ss)
  show ?case
  proof (cases "src_incident_id s = incident_id (h r)")
    case True
    let ?h = "h(r := (h r)\<lparr>src := Some (arr @ [s])\<rparr>)"
    have "src (?h r) = Some (arr @ [s])" by simp
    then have "forEach_sources r ss ?h = Inr (?h(r := (?h r)\<lparr>src :=
        Some ((arr @ [s]) @ filter (\<lambda>s. src_incident_id s = incident_id (?h r)) ss)\<rparr>))"
      by (rule Cons.IH)
    then show ?thesis using True Cons.prems by simp (rule ext, simp)
  next
    case False
    from Cons.prems have "forEach_sources r ss h = Inr (h(r := (h r)\<lparr>src :=
        Some (arr @ filter (\<lambda>s. src_incident_id s = incident_id (h r)) ss)\<rparr>))"
      by (rule Cons.IH)
    with False show ?thesis by simp (rule ext, simp)
  qed
qed

lemma forEach_incidents_categories_eq:
  "forEach_incidents_categories rs tags h =
     Inr (\<lambda>r. if r \<in> set rs
              then (h r)\<lparr>categories :=
                     Some (map type_of_force
                             (filter (\<lambda>t. tag_incident_id t = incident_id (h r)) tags))\<rparr>
              else h r)"
proof (induction rs arbitrary: h)
  case Nil
  then show ?case by simp
next
  case (Cons r rs)
  let ?h0 = "h(r := (h r)\<lparr>categories := Some []\<rparr>)"
  have "categories (?h0 r) = Some []" by simp
  from forEach_tagsArray_eq [of ?h0 r "[]" tags, OF this]
  have step: "forEach_tagsArray r tags ?h0 =
     Inr (h(r := (h r)\<lparr>categories :=
            Some (map type_of_force
                    (filter (\<lambda>t. tag_incident_id t = incident_id (h r)) tags))\<rparr>))"
    by simp
  show ?case
    by (simp add: step Cons.IH) (rule ext, simp)
qed

lemma forEach_incidents_src_eq:
  "forEach_incidents_src rs ss h acc =
     Inr (\<lambda>r. if r \<in> set rs
              then (h r)\<lparr>src := Some (filter (\<lambda>s. src_incident_id s = incident_id (h r)) ss)\<rparr>
              else h r, acc @ rs)"
proof (induction rs arbitrary: h acc)
  case Nil
  then show ?case by simp
next
  case (Cons r rs)
  let ?h0 = "h(r := (h r)\<lparr>src := Some []\<rparr>)"
  have "src (?h0 r) = Some []" by simp
  from forEach_sources_eq [of ?h0 r "[]" ss, OF this]
  have step: "forEach_sources r ss ?h0 =
     Inr (h(r := (h r)\<lparr>src := Some (filter (\<lambda>s. src_incident_id s = incident_id (h r)) ss)\<rparr>))"
    by simp
  show ?case
    by (simp add: step Cons.IH) (rule ext, simp)
qed

text \<open>
  The heap and the response the handler's body leaves: each incident of the array gets
  the labels of its tags and its sources; every other object stays as it is.
\<close>

lemma aggregate_eq:
  "aggregate h incidents tofTypes typeLinks sources =
     Inr (\<lambda>r. if r \<in> set incidents
              then (h r)\<lparr>categories :=
                       Some (concat (map (\<lambda>d. map (\<lambda>c. type_of_force d)
                               (filter (\<lambda>c. link_type_of_force_id c = type_of_force_id d
                                            \<and> link_incident_id c = incident_id (h r))
                                  typeLinks)) tofTypes)),
                     src := Some (filter (\<lambda>s. src_incident_id s = incident_id (h r)) sources)\<rparr>
              else h r, incidents)"
  unfolding aggregate_def
  by (simp add: forEach_incidents_categories_eq forEach_incidents_src_eq)
     (rule ext, simp add: labels_of_tagsArray)

lemma showallincidents_eq:
  "showallincidents h incidents sources tofTypes typeLinks =
     Json_200 (map (\<lambda>r. (h r)\<lparr>categories :=
                       Some (concat (map (\<lambda>d. map (\<lambda>c. type_of_force d)
                               (filter (\<lambda>c. link_type_of_force_id c = type_of_force_id d
                                            \<and> link_incident_id c = incident_id (h r))
                                  typeLinks)) tofTypes)),
                     src := Some (filter (\<lambda>s. src_incident_id s = incident_id (h r)) sources)\<rparr>)
                 incidents)"
  unfolding showallincidents_def by (simp add: aggregate_eq)

subsection \<open>Counting\<close>

lemma labels_replicate:
  "map (\<lambda>c. l) (filter (\<lambda>c. link_type_of_force_id c = t \<and> link_incident_id c = i) ls)
     = replicate (occurrences ls t i) l"
  by (simp add: occurrences_def map_replicate_const)

lemma count_list_replicate: "count_list (replicate n y) x = (if x = y then n else 0)"
  by (induction n) auto

lemma count_list_concat_map:
  "count_list (concat (map f ds)) x = sum_list (map (\<lambda>d. count_list (f d) x) ds)"
  by (induction ds) auto

lemma sum_list_if_filter:
  "sum_list (map (\<lambda>d. if P d then (n d :: nat) else 0) ds) = sum_list (map n (filter P ds))"
  by (induction ds) auto

lemma count_list_filter_same:
  "P s \<Longrightarrow> count_list (filter P ss) s = count_list ss s"
  by (induction ss) auto

lemma count_labels:
  "count_list (concat (map (\<lambda>d. replicate (n d) (type_of_force d)) ds)) l
     = sum_list (map n (filter (\<lambda>d. type_of_force d = l) ds))"
  by (simp add: count_list_concat_map count_list_replicate sum_list_if_filter [symmetric] eq_commute
      cong: if_cong)

subsection \<open>Claims about the aggregator\<close>

text \<open>
  Claim C3. For every input the handler's body returns without an exception; the response
  has exactly one record per input incident, the record at position \<open>k\<close> is the incident
  at position \<open>k\<close> of the input, and it carries all the columns of that incident and, in
  addition, the two sequences \<open>categories\<close> and \<open>src\<close>.
\<close>

theorem aggregate_one_record_per_incident:
  "\<exists>h'. aggregate h incidents tofTypes typeLinks sources = Inr (h', incidents)
      \<and> showallincidents h incidents sources tofTypes typeLinks = Json_200 (map h' incidents)
      \<and> length (map h' incidents) = length incidents
      \<and> (\<forall>k < length incidents. \<exists>cs ss.
            map h' incidents ! k = (h (incidents ! k))\<lparr>categories := Some cs, src := Some ss\<rparr>)"
proof -
  define h' where "h' = (\<lambda>r. if r \<in> set incidents
      then (h r)\<lparr>categories :=
               Some (concat (map (\<lambda>d. map (\<lambda>c. type_of_force d)
                       (filter (\<lambda>c. link_type_of_force_id c = type_of_force_id d
                                    \<and> link_incident_id c = incident_id (h r))
                          typeLinks)) tofTypes)),
             src := Some (filter (\<lambda>s. src_incident_id s = incident_id (h r)) sources)\<rparr>
      else h r)"
  have agg: "aggregate h incidents tofTypes typeLinks sources = Inr (h', incidents)"
    unfolding h'_def by (rule aggregate_eq)
  have "\<exists>cs ss. map h' incidents ! k = (h (incidents ! k))\<lparr>categories := Some cs, src := Some ss\<rparr>"
    if "k < length incidents" for k
    using that by (simp add: h'_def) blast
  with agg show ?thesis by (auto simp: showallincidents_def)
qed

theorem aggregate_one_record_per_incident_witness:
  "\<exists>h'. aggregate fetched [0, 1] [tear_gas] [\<lparr>link_type_of_force_id = 1, link_incident_id = 1\<rparr>]
            [tweet] = Inr (h', [0, 1])
      \<and> (1 :: nat) < length [0 :: nat, 1]
      \<and> (\<exists>cs ss. map h' [0, 1] ! 1 = incident2\<lparr>categories := Some cs, src := Some ss\<rparr>)"
proof -
  from aggregate_one_record_per_incident
    [of fetched "[0, 1]" "[tear_gas]" "[\<lparr>link_type_of_force_id = 1, link_incident_id = 1\<rparr>]"
      "[tweet]"]
  obtain h' where
    a: "aggregate fetched [0, 1] [tear_gas] [\<lparr>link_type_of_force_id = 1, link_incident_id = 1\<rparr>]
          [tweet] = Inr (h', [0, 1])"
    and b: "\<forall>k < length [0 :: nat, 1]. \<exists>cs ss.
          map h' [0, 1] ! k = (fetched ([0, 1] ! k))\<lparr>categories := Some cs, src := Some ss\<rparr>"
    by blast
  have c: "(1 :: nat) < length [0 :: nat, 1]" by simp
  from b c have "\<exists>cs ss. map h' [0, 1] ! 1
      = (fetched ([0, 1] ! 1))\<lparr>categories := Some cs, src := Some ss\<rparr>"
    by blast
  then have "\<exists>cs ss. map h' [0, 1] ! 1 = incident2\<lparr>categories := Some cs, src := Some ss\<rparr>"
    by (simp add: fetched_def)
  with a c show ?thesis by blast
qed

text \<open>
  Claim C7. When the sources collection is empty, every record of the response has the
  empty sequence as its \<open>src\<close>, whatever the tag links and tag definitions are.
\<close>

theorem empty_sources_empty_src:
  "\<exists>body. showallincidents h incidents [] tofTypes typeLinks = Json_200 body
      \<and> length body = length incidents
      \<and> (\<forall>record \<in> set body. src record = Some [])"
  by (auto simp: showallincidents_eq)

theorem empty_sources_empty_src_witness:
  "\<exists>body. showallincidents fetched [0, 1] [] [tear_gas]
             [\<lparr>link_type_of_force_id = 1, link_incident_id = 1\<rparr>] = Json_200 body
      \<and> length body = 2
      \<and> src (body ! 0) = Some [] \<and> src (body ! 1) = Some []"
proof -
  from empty_sources_empty_src
    [of fetched "[0, 1]" "[tear_gas]" "[\<lparr>link_type_of_force_id = 1, link_incident_id = 1\<rparr>]"]
  obtain body where
    a: "showallincidents fetched [0, 1] [] [tear_gas]
          [\<lparr>link_type_of_force_id = 1, link_incident_id = 1\<rparr>] = Json_200 body"
    and b: "length body = length [0 :: nat, 1]"
    and c: "\<forall>record \<in> set body. src record = Some []"
    by blast
  from b have "body ! 0 \<in> set body" "body ! 1 \<in> set body" by simp_all
  with c have "src (body ! 0) = Some []" "src (body ! 1) = Some []" by blast+
  with a b show ?thesis by auto
qed

text \<open>
  Claim C1, as stated: the call leaves every input incident as it was and returns new
  structures. It fails on the scenario of one incident with one tag and one source: the
  handler assigns \<open>incident['categories']\<close> and \<open>incident['src']\<close> on the fetched object
  itself and pushes that object, so the incident at address 0 is no longer the fetched
  row, and the response holds address 0.
\<close>

theorem aggregate_mutates_counterexample:
  "fetched 0 = incident1
   \<and> aggregate fetched [0] [tear_gas] [\<lparr>link_type_of_force_id = 1, link_incident_id = 1\<rparr>] [tweet]
       = Inr (fetched(0 := incident1\<lparr>categories := Some [''tear_gas''], src := Some [tweet]\<rparr>), [0])
   \<and> (fetched(0 := incident1\<lparr>categories := Some [''tear_gas''], src := Some [tweet]\<rparr>)) 0
       \<noteq> fetched 0"
proof (intro conjI)
  show "fetched 0 = incident1" by (simp add: fetched_def)
  show "aggregate fetched [0] [tear_gas] [\<lparr>link_type_of_force_id = 1, link_incident_id = 1\<rparr>] [tweet]
       = Inr (fetched(0 := incident1\<lparr>categories := Some [''tear_gas''], src := Some [tweet]\<rparr>), [0])"
    unfolding aggregate_eq
    by (simp, rule ext) (simp add: fetched_def incident1_def tear_gas_def tweet_def)
  show "(fetched(0 := incident1\<lparr>categories := Some [''tear_gas''], src := Some [tweet]\<rparr>)) 0
       \<noteq> fetched 0"
    by (simp add: fetched_def incident1_def)
qed

text \<open>
  Claim C1, amended. The call only reads the tag definitions, the tag links and the
  sources. It leaves the incidents collection as it is (the same objects in the same
  order), every column of every incident row, and every object outside the collection;
  but it writes the two properties \<open>categories\<close> and \<open>src\<close> into each input incident
  in place, and the records of the response are these input objects themselves.
\<close>

theorem aggregate_updates_incidents_in_place:
  "\<exists>h'. aggregate h incidents tofTypes typeLinks sources = Inr (h', incidents)
      \<and> (\<forall>r. incident_row.truncate (h' r) = incident_row.truncate (h r))
      \<and> (\<forall>r. r \<notin> set incidents \<longrightarrow> h' r = h r)
      \<and> (\<forall>r \<in> set incidents. \<exists>cs ss. h' r = (h r)\<lparr>categories := Some cs, src := Some ss\<rparr>)"
proof -
  define h' where "h' = (\<lambda>r. if r \<in> set incidents
      then (h r)\<lparr>categories :=
               Some (concat (map (\<lambda>d. map (\<lambda>c. type_of_force d)
                       (filter (\<lambda>c. link_type_of_force_id c = type_of_force_id d
                                    \<and> link_incident_id c = incident_id (h r))
                          typeLinks)) tofTypes)),
             src := Some (filter (\<lambda>s. src_incident_id s = incident_id (h r)) sources)\<rparr>
      else h r)"
  have agg: "aggregate h incidents tofTypes typeLinks sources = Inr (h', incidents)"
    unfolding h'_def by (rule aggregate_eq)
  have rows: "incident_row.truncate (h' r) = incident_row.truncate (h r)" for r
    by (simp add: h'_def incident_row.truncate_def)
  have frame: "h' r = h r" if "r \<notin> set incidents" for r
    using that by (simp add: h'_def)
  have written: "\<exists>cs ss. h' r = (h r)\<lparr>categories := Some cs, src := Some ss\<rparr>"
    if "r \<in> set incidents" for r
    using that by (simp add: h'_def) blast
  from agg rows frame written show ?thesis by blast
qed

theorem aggregate_updates_incidents_in_place_witness:
  "\<exists>h'. aggregate fetched [0] [tear_gas] [\<lparr>link_type_of_force_id = 1, link_incident_id = 1\<rparr>]
            [tweet] = Inr (h', [0])
      \<and> (1 :: nat) \<notin> set [0] \<and> h' 1 = incident2
      \<and> (0 :: nat) \<in> set [0]
      \<and> (\<exists>cs ss. h' 0 = incident1\<lparr>categories := Some cs, src := Some ss\<rparr>)"
proof -
  from aggregate_updates_incidents_in_place
    [of fetched "[0]" "[tear_gas]" "[\<lparr>link_type_of_force_id = 1, link_incident_id = 1\<rparr>]"
      "[tweet]"]
  obtain h' where
    a: "aggregate fetched [0] [tear_gas] [\<lparr>link_type_of_force_id = 1, link_incident_id = 1\<rparr>]
          [tweet] = Inr (h', [0])"
    and b: "\<forall>r. r \<notin> set [0 :: nat] \<longrightarrow> h' r = fetched r"
    and c: "\<forall>r \<in> set [0 :: nat]. \<exists>cs ss. h' r = (fetched r)\<lparr>categories := Some cs, src := Some ss\<rparr>"
    by blast
  have d: "(1 :: nat) \<notin> set [0]" and e: "(0 :: nat) \<in> set [0]" by simp_all
  from b d have "h' 1 = fetched 1" by blast
  then have f: "h' 1 = incident2" by (simp add: fetched_def)
  from c e have "\<exists>cs ss. h' 0 = (fetched 0)\<lparr>categories := Some cs, src := Some ss\<rparr>" by blast
  then have g: "\<exists>cs ss. h' 0 = incident1\<lparr>categories := Some cs, src := Some ss\<rparr>"
    by (simp add: fetched_def)
  from a d e f g show ?thesis by blast
qed

text \<open>
  Claim C2, as stated: the label of an earlier tag link precedes the label of a later
  one, whatever the order of the tag definitions. It fails for two links of incident 1,
  the first to baton and the second to tear_gas: with the definitions in the order
  tear_gas, baton the categories are tear_gas, baton; with the definitions swapped they
  are baton, tear_gas.
\<close>

theorem category_order_counterexample:
  "showallincidents fetched [0] [] [tear_gas, baton]
     [\<lparr>link_type_of_force_id = 2, link_incident_id = 1\<rparr>,
      \<lparr>link_type_of_force_id = 1, link_incident_id = 1\<rparr>]
     = Json_200 [incident1\<lparr>categories := Some [''tear_gas'', ''baton''], src := Some []\<rparr>]
   \<and> showallincidents fetched [0] [] [baton, tear_gas]
     [\<lparr>link_type_of_force_id = 2, link_incident_id = 1\<rparr>,
      \<lparr>link_type_of_force_id = 1, link_incident_id = 1\<rparr>]
     = Json_200 [incident1\<lparr>categories := Some [''baton'', ''tear_gas''], src := Some []\<rparr>]"
  by (simp add: showallincidents_eq fetched_def incident1_def tear_gas_def baton_def)

text \<open>
  Claim C2, amended. The categories of an incident are grouped by tag definition, in the
  order of the tag-definitions collection (the outer loop); within one definition there
  is one label per matching tag link, in the order of the tag links (the inner loop). So
  the order of the tag links decides the order of the categories only among links that
  resolve to the same definition row.
\<close>

theorem categories_follow_tag_definitions:
  assumes "r \<in> set incidents"
  shows "\<exists>h'. aggregate h incidents tofTypes typeLinks sources = Inr (h', incidents)
      \<and> categories (h' r) =
          Some (concat (map (\<lambda>d. map (\<lambda>c. type_of_force d)
                  (filter (\<lambda>c. link_type_of_force_id c = type_of_force_id d
                               \<and> link_incident_id c = incident_id (h r)) typeLinks))
                tofTypes))"
  using assms by (simp add: aggregate_eq)

theorem categories_follow_tag_definitions_witness:
  "(0 :: nat) \<in> set [0]
   \<and> (\<exists>h'. aggregate fetched [0] [tear_gas, baton]
              [\<lparr>link_type_of_force_id = 2, link_incident_id = 1\<rparr>,
               \<lparr>link_type_of_force_id = 1, link_incident_id = 1\<rparr>,
               \<lparr>link_type_of_force_id = 2, link_incident_id = 1\<rparr>] [] = Inr (h', [0])
          \<and> categories (h' 0) = Some [''tear_gas'', ''baton'', ''baton''])"
proof -
  have a: "(0 :: nat) \<in> set [0]" by simp
  from categories_follow_tag_definitions [OF a, of fetched "[tear_gas, baton]"
      "[\<lparr>link_type_of_force_id = 2, link_incident_id = 1\<rparr>,
        \<lparr>link_type_of_force_id = 1, link_incident_id = 1\<rparr>,
        \<lparr>link_type_of_force_id = 2, link_incident_id = 1\<rparr>]" "[]"]
  show ?thesis
    by (simp add: fetched_def incident1_def tear_gas_def baton_def)
qed

text \<open>
  Claim C6. When the \<open>type_of_force_id\<close> of a tag link matches no tag definition of the
  supplied collection, the call raises no error (the answer is not the 500 of the
  \<open>catch\<close> branch), the link adds no element to \<open>tagsArray\<close> and so to no incident's
  categories, and the result is the one the call gives without that link: all other
  links are processed as usual.
\<close>

theorem unmatched_link_skipped:
  assumes "\<forall>d \<in> set tofTypes. type_of_force_id d \<noteq> link_type_of_force_id c"
  shows "(\<exists>h'. aggregate h incidents tofTypes (ls1 @ c # ls2) sources = Inr (h', incidents))
      \<and> (\<exists>body. showallincidents h incidents sources tofTypes (ls1 @ c # ls2) = Json_200 body)
      \<and> forEach_tofTypes tofTypes (ls1 @ c # ls2) [] = forEach_tofTypes tofTypes (ls1 @ ls2) []
      \<and> aggregate h incidents tofTypes (ls1 @ c # ls2) sources
          = aggregate h incidents tofTypes (ls1 @ ls2) sources"
proof (intro conjI)
  show "\<exists>h'. aggregate h incidents tofTypes (ls1 @ c # ls2) sources = Inr (h', incidents)"
    by (simp add: aggregate_eq)
  show "\<exists>body. showallincidents h incidents sources tofTypes (ls1 @ c # ls2) = Json_200 body"
    by (simp add: showallincidents_eq)
  have same: "filter (\<lambda>x. link_type_of_force_id x = type_of_force_id d) (ls1 @ c # ls2)
            = filter (\<lambda>x. link_type_of_force_id x = type_of_force_id d) (ls1 @ ls2)"
    if "d \<in> set tofTypes" for d
    using that assms by auto
  have "map (\<lambda>d. map (\<lambda>x. \<lparr>type_of_force_id = type_of_force_id d,
                             type_of_force = type_of_force d,
                             tag_incident_id = link_incident_id x\<rparr>)
                (filter (\<lambda>x. link_type_of_force_id x = type_of_force_id d) (ls1 @ c # ls2)))
          tofTypes
      = map (\<lambda>d. map (\<lambda>x. \<lparr>type_of_force_id = type_of_force_id d,
                             type_of_force = type_of_force d,
                             tag_incident_id = link_incident_id x\<rparr>)
                (filter (\<lambda>x. link_type_of_force_id x = type_of_force_id d) (ls1 @ ls2)))
          tofTypes"
    by (rule map_cong) (simp_all only: same)
  then show tags: "forEach_tofTypes tofTypes (ls1 @ c # ls2) []
                   = forEach_tofTypes tofTypes (ls1 @ ls2) []"
    by (simp only: forEach_tofTypes_eq)
  then show "aggregate h incidents tofTypes (ls1 @ c # ls2) sources
             = aggregate h incidents tofTypes (ls1 @ ls2) sources"
    by (simp only: aggregate_def)
qed

theorem unmatched_link_skipped_witness:
  "type_of_force_id tear_gas \<noteq> link_type_of_force_id \<lparr>link_type_of_force_id = 9, link_incident_id = 1\<rparr>
   \<and> showallincidents fetched [0] [] [tear_gas]
        ([\<lparr>link_type_of_force_id = 1, link_incident_id = 1\<rparr>]
         @ \<lparr>link_type_of_force_id = 9, link_incident_id = 1\<rparr> # [])
       = Json_200 [incident1\<lparr>categories := Some [''tear_gas''], src := Some []\<rparr>]
   \<and> aggregate fetched [0] [tear_gas]
        ([\<lparr>link_type_of_force_id = 1, link_incident_id = 1\<rparr>]
         @ \<lparr>link_type_of_force_id = 9, link_incident_id = 1\<rparr> # []) []
       = aggregate fetched [0] [tear_gas]
           ([\<lparr>link_type_of_force_id = 1, link_incident_id = 1\<rparr>] @ []) []"
proof -
  have a: "\<forall>d \<in> set [tear_gas].
      type_of_force_id d \<noteq> link_type_of_force_id \<lparr>link_type_of_force_id = 9, link_incident_id = 1\<rparr>"
    by (simp add: tear_gas_def)
  have b: "showallincidents fetched [0] [] [tear_gas]
        ([\<lparr>link_type_of_force_id = 1, link_incident_id = 1\<rparr>]
         @ \<lparr>link_type_of_force_id = 9, link_incident_id = 1\<rparr> # [])
       = Json_200 [incident1\<lparr>categories := Some [''tear_gas''], src := Some []\<rparr>]"
    by (simp add: showallincidents_eq fetched_def incident1_def tear_gas_def)
  from unmatched_link_skipped [OF a, of fetched "[0]"
      "[\<lparr>link_type_of_force_id = 1, link_incident_id = 1\<rparr>]" "[]" "[]"] a b
  show ?thesis by simp
qed

text \<open>
  Claim C10, as stated: when a tag-link pair occurs \<open>n\<close> times, the resolved label
  occurs \<open>n\<close> times in the categories of the incident. It fails when another
  definition row carries the same label: with the definitions tear_gas under the keys 1
  and 2 and one link of incident 1 to each, the pair (1, 1) occurs once and the label
  tear_gas occurs twice. It fails likewise when the row of tear_gas is supplied twice:
  one link then gives the label twice.
\<close>

theorem label_count_counterexample:
  "occurrences [\<lparr>link_type_of_force_id = 1, link_incident_id = 1\<rparr>,
                \<lparr>link_type_of_force_id = 2, link_incident_id = 1\<rparr>] 1 1 = 1
   \<and> showallincidents fetched [0] []
        [tear_gas, \<lparr>type_of_force_id = 2, type_of_force = ''tear_gas''\<rparr>]
        [\<lparr>link_type_of_force_id = 1, link_incident_id = 1\<rparr>,
         \<lparr>link_type_of_force_id = 2, link_incident_id = 1\<rparr>]
       = Json_200 [incident1\<lparr>categories := Some [''tear_gas'', ''tear_gas''], src := Some []\<rparr>]
   \<and> count_list [''tear_gas'', ''tear_gas''] ''tear_gas'' = 2
   \<and> occurrences [\<lparr>link_type_of_force_id = 1, link_incident_id = 1\<rparr>] 1 1 = 1
   \<and> showallincidents fetched [0] [] [tear_gas, tear_gas]
        [\<lparr>link_type_of_force_id = 1, link_incident_id = 1\<rparr>]
       = Json_200 [incident1\<lparr>categories := Some [''tear_gas'', ''tear_gas''], src := Some []\<rparr>]"
  by (simp add: occurrences_def showallincidents_eq fetched_def incident1_def tear_gas_def)

text \<open>
  Claim C10, amended. Nothing is deduplicated within a call. For an incident of the
  collection, every tag definition row contributes its label once per occurrence of the
  tag-link pair (its \<open>type_of_force_id\<close>, the incident's \<open>incident_id\<close>): when the pair
  occurs \<open>n\<close> times, the row gives \<open>n\<close> occurrences of its label. A label therefore
  occurs as often as the pairs of all the definition rows that carry it occur together:
  at least \<open>n\<close> times, and exactly \<open>n\<close> times when one row alone carries it. Every source
  row of the incident is in \<open>src\<close> as often as it occurs in the sources collection.
\<close>

theorem no_deduplication:
  assumes "r \<in> set incidents"
  shows "\<exists>h' cs ss. aggregate h incidents tofTypes typeLinks sources = Inr (h', incidents)
      \<and> categories (h' r) = Some cs \<and> src (h' r) = Some ss
      \<and> cs = concat (map (\<lambda>d. replicate
                (occurrences typeLinks (type_of_force_id d) (incident_id (h r)))
                (type_of_force d)) tofTypes)
      \<and> (\<forall>l. count_list cs l =
            sum_list (map (\<lambda>d. occurrences typeLinks (type_of_force_id d) (incident_id (h r)))
                       (filter (\<lambda>d. type_of_force d = l) tofTypes)))
      \<and> (\<forall>d \<in> set tofTypes.
            occurrences typeLinks (type_of_force_id d) (incident_id (h r))
              \<le> count_list cs (type_of_force d))
      \<and> (\<forall>d. filter (\<lambda>d'. type_of_force d' = type_of_force d) tofTypes = [d] \<longrightarrow>
            count_list cs (type_of_force d)
              = occurrences typeLinks (type_of_force_id d) (incident_id (h r)))
      \<and> ss = filter (\<lambda>s. src_incident_id s = incident_id (h r)) sources
      \<and> (\<forall>s. src_incident_id s = incident_id (h r) \<longrightarrow> count_list ss s = count_list sources s)"
proof -
  define n where "n d = occurrences typeLinks (type_of_force_id d) (incident_id (h r))"
    for d :: tof
  define cs where "cs = concat (map (\<lambda>d. replicate (n d) (type_of_force d)) tofTypes)"
  define ss where "ss = filter (\<lambda>s. src_incident_id s = incident_id (h r)) sources"
  obtain h' where agg: "aggregate h incidents tofTypes typeLinks sources = Inr (h', incidents)"
    and cats: "categories (h' r) =
          Some (concat (map (\<lambda>d. map (\<lambda>c. type_of_force d)
                  (filter (\<lambda>c. link_type_of_force_id c = type_of_force_id d
                               \<and> link_incident_id c = incident_id (h r)) typeLinks))
                tofTypes))"
    and srcs: "src (h' r) = Some ss"
    using assms by (simp add: aggregate_eq ss_def)
  from cats have cats': "categories (h' r) = Some cs"
    by (simp only: labels_replicate cs_def n_def)
  have count: "count_list cs l = sum_list (map n (filter (\<lambda>d. type_of_force d = l) tofTypes))"
    for l
    unfolding cs_def by (rule count_labels)
  have least: "n d \<le> count_list cs (type_of_force d)" if "d \<in> set tofTypes" for d
  proof -
    from that have "n d \<in> set (map n (filter (\<lambda>d'. type_of_force d' = type_of_force d) tofTypes))"
      by simp
    then have "n d \<le> sum_list (map n (filter (\<lambda>d'. type_of_force d' = type_of_force d) tofTypes))"
      by (rule member_le_sum_list) simp_all
    then show ?thesis by (simp only: count)
  qed
  have exact: "count_list cs (type_of_force d) = n d"
    if "filter (\<lambda>d'. type_of_force d' = type_of_force d) tofTypes = [d]" for d
    using that by (simp add: count)
  have kept: "count_list ss s = count_list sources s"
    if "src_incident_id s = incident_id (h r)" for s
    unfolding ss_def using that by (rule count_list_filter_same)
  from agg cats' srcs count least exact kept show ?thesis
    unfolding n_def cs_def ss_def by blast
qed

theorem no_deduplication_witness:
  "(0 :: nat) \<in> set [0]
   \<and> occurrences [\<lparr>link_type_of_force_id = 1, link_incident_id = 1\<rparr>,
                  \<lparr>link_type_of_force_id = 2, link_incident_id = 1\<rparr>,
                  \<lparr>link_type_of_force_id = 1, link_incident_id = 1\<rparr>] 1 1 = 2
   \<and> count_list [tweet, tweet] tweet = 2
   \<and> (\<exists>h'. aggregate fetched [0] [tear_gas, baton]
              [\<lparr>link_type_of_force_id = 1, link_incident_id = 1\<rparr>,
               \<lparr>link_type_of_force_id = 2, link_incident_id = 1\<rparr>,
               \<lparr>link_type_of_force_id = 1, link_incident_id = 1\<rparr>] [tweet, tweet] = Inr (h', [0])
          \<and> categories (h' 0) = Some [''tear_gas'', ''tear_gas'', ''baton'']
          \<and> src (h' 0) = Some [tweet, tweet])"
proof -
  have a: "(0 :: nat) \<in> set [0]" by simp
  have b: "occurrences [\<lparr>link_type_of_force_id = 1, link_incident_id = 1\<rparr>,
                  \<lparr>link_type_of_force_id = 2, link_incident_id = 1\<rparr>,
                  \<lparr>link_type_of_force_id = 1, link_incident_id = 1\<rparr>] 1 1 = 2"
    by (simp add: occurrences_def)
  have c: "occurrences [\<lparr>link_type_of_force_id = 1, link_incident_id = 1\<rparr>,
                  \<lparr>link_type_of_force_id = 2, link_incident_id = 1\<rparr>,
                  \<lparr>link_type_of_force_id = 1, link_incident_id = 1\<rparr>] 2 1 = 1"
    by (simp add: occurrences_def)
  have d: "count_list [tweet, tweet] tweet = 2" by simp
  from no_deduplication [OF a, of fetched "[tear_gas, baton]"
      "[\<lparr>link_type_of_force_id = 1, link_incident_id = 1\<rparr>,
        \<lparr>link_type_of_force_id = 2, link_incident_id = 1\<rparr>,
        \<lparr>link_type_of_force_id = 1, link_incident_id = 1\<rparr>]" "[tweet, tweet]"]
  obtain h' cs ss where
    e: "aggregate fetched [0] [tear_gas, baton]
              [\<lparr>link_type_of_force_id = 1, link_incident_id = 1\<rparr>,
               \<lparr>link_type_of_force_id = 2, link_incident_id = 1\<rparr>,
               \<lparr>link_type_of_force_id = 1, link_incident_id = 1\<rparr>] [tweet, tweet] = Inr (h', [0])"
    and f: "categories (h' 0) = Some cs" "src (h' 0) = Some ss"
    and g: "cs = concat (map (\<lambda>d. replicate
                (occurrences [\<lparr>link_type_of_force_id = 1, link_incident_id = 1\<rparr>,
                              \<lparr>link_type_of_force_id = 2, link_incident_id = 1\<rparr>,
                              \<lparr>link_type_of_force_id = 1, link_incident_id = 1\<rparr>]
                   (type_of_force_id d) (incident_id (fetched 0)))
                (type_of_force d)) [tear_gas, baton])"
    and h: "ss = filter (\<lambda>s. src_incident_id s = incident_id (fetched 0)) [tweet, tweet]"
    by blast
  have i: "incident_id (fetched 0) = 1" by (simp add: fetched_def incident1_def)
  from g have "cs = [''tear_gas'', ''tear_gas'', ''baton'']"
    by (simp add: i b c tear_gas_def baton_def numeral_2_eq_2)
  moreover from h have "ss = [tweet, tweet]"
    by (simp add: i tweet_def)
  ultimately show ?thesis using a b d e f by blast
qed

end
